theory Spec2Isabelle
  imports Complex_Main "HOL-Library.Log_Nat"
begin

section \<open>InfiniteScroller: the component's data\<close>

text \<open>
  The repository holds one React component, \<^verbatim>\<open>InfiniteScroller\<close>, in two versions of the
  same file. Both versions share step 1 (measure and clone) and step 3 (pause on hover);
  they differ in step 2 (the distance of the animation) and in step 4 (the resize
  handler). Definitions that differ carry the suffix \<open>_v1\<close> (the first version, which
  animates over the full scroll width) or \<open>_v2\<close> (the second, which subtracts the
  container width and debounces the resize handler).

  JavaScript numbers are doubles: they are modelled as \<^typ>\<open>real\<close>, and the sums and the
  quotient of step 1 are rounded to the nearest double as the code computes them. The
  DOM's \<^verbatim>\<open>offsetWidth\<close> and \<^verbatim>\<open>scrollWidth\<close> are non-negative integers and are modelled as
  \<^typ>\<open>nat\<close>. Items are opaque: the component never inspects them.

  React compares arrays by identity. \<open>itemsRef\<close> names the array that the parent passes
  as \<^verbatim>\<open>items\<close>: two props hold the same array exactly when they have the same
  \<open>itemsRef\<close> (and then the same contents, since nobody writes into the array).
\<close>

datatype direction = Left | Right

record 'a props =
  items :: "'a list"
  itemsRef :: nat
  speed :: real
  gap :: real
  direction :: direction
  pauseOnHover :: bool


text \<open>
  What the layout engine reports, taken as a parameter: the container's
  \<^verbatim>\<open>offsetWidth\<close>, the \<^verbatim>\<open>offsetWidth\<close> of the wrapper child that renders an item, and
  the wrapper's \<^verbatim>\<open>scrollWidth\<close> when a given list of items is rendered in it.
\<close>

record 'a dom =
  containerWidth :: nat
  offsetWidth :: "'a \<Rightarrow> nat"
  scrollWidth :: "'a list \<Rightarrow> nat"

section \<open>Doubles\<close>

text \<open>
  The arithmetic of the JavaScript engine is not in the repository; this is the IEEE 754
  rounding of a real number to the nearest double, ties to even. \<open>pow2 k\<close> is \<open>2\<close> to the
  power \<open>k\<close>; \<open>rne\<close> rounds to the nearest integer, ties to even; \<open>expo a\<close> is the binary
  exponent of \<open>a > 0\<close>, the \<open>e\<close> with \<open>2^e \<le> a < 2^(e+1)\<close>. A double has 53 significant
  bits, so in the binade of exponent \<open>e\<close> the doubles are the multiples of
  \<open>2^(e-52)\<close>; below \<open>2^(-1022)\<close> (subnormal numbers) they are the multiples of
  \<open>2^(-1074)\<close>. Results of \<open>2^1024\<close> and more, which are \<^verbatim>\<open>Infinity\<close> in JavaScript, have
  no value in \<^typ>\<open>real\<close> and are left as they are rounded.
\<close>

definition pow2 :: "int \<Rightarrow> real" where
  "pow2 k = (if 0 \<le> k then 2 ^ nat k else 1 / 2 ^ nat (- k))"

definition rne :: "real \<Rightarrow> int" where
  "rne y =
     (let f = \<lfloor>y\<rfloor>; r = y - of_int f
      in if r < 1 / 2 then f else if 1 / 2 < r then f + 1 else if even f then f else f + 1)"

definition expo :: "real \<Rightarrow> int" where
  "expo a =
     (if 1 \<le> a then bitlen \<lfloor>a\<rfloor> - 1
      else
        let k = bitlen \<lfloor>1 / a\<rfloor> - 1
        in if 1 / a = 2 ^ nat k then - k else - k - 1)"

definition round64 :: "real \<Rightarrow> real" where
  "round64 x =
     (if x = 0 then 0
      else
        let a = \<bar>x\<bar>;
            e = max (expo a) (- 1022);
            u = pow2 (e - 52)
        in sgn x * (of_int (rne (a / u)) * u))"

section \<open>Step 1: measuring and cloning\<close>

text \<open>
  The \<^verbatim>\<open>forEach\<close> loop over the wrapper's children: \<open>i\<close> is the index of the head of the
  remaining children, \<open>n\<close> is \<^verbatim>\<open>itemsArray.length\<close>, \<open>acc\<close> is the running
  \<^verbatim>\<open>totalWidth\<close>. The test \<^verbatim>\<open>i < itemsArray.length - 1\<close> is on integers, so that the
  length 0 gives \<open>-1\<close>. Each of the two \<^verbatim>\<open>+=\<close> rounds its sum to a double.
\<close>

fun forEach_width :: "nat list \<Rightarrow> nat \<Rightarrow> nat \<Rightarrow> real \<Rightarrow> real \<Rightarrow> real" where
  "forEach_width [] i n g acc = acc"
| "forEach_width (w # ws) i n g acc =
     forEach_width ws (Suc i) n g
       (let a = round64 (acc + real w)
        in if int i < int n - 1 then round64 (a + g) else a)"

definition totalWidth :: "nat list \<Rightarrow> real \<Rightarrow> real" where
  "totalWidth itemsArray g = forEach_width itemsArray 0 (length itemsArray) g 0"

text \<open>\<^verbatim>\<open>Math.ceil(containerWidth / totalWidth) + 2\<close>; it is only computed when
  \<open>totalWidth > 0\<close>. The quotient is a double.\<close>

definition cloneCount :: "nat \<Rightarrow> real \<Rightarrow> int" where
  "cloneCount cw tw = \<lceil>round64 (real cw / tw)\<rceil> + 2"

datatype error = RangeError

text \<open>
  \<^verbatim>\<open>Array.from({ length: cloneCount }, () => items).flat()\<close>. A negative length counts as
  0, and \<^verbatim>\<open>Array.from\<close> throws a \<^verbatim>\<open>RangeError\<close> ("Invalid array length") for a length
  above \<open>2^32 - 1\<close>.
\<close>

definition repeated :: "int \<Rightarrow> 'a list \<Rightarrow> error + 'a list" where
  "repeated c xs =
     (if 2 ^ 32 - 1 < c then Inl RangeError else Inr (concat (replicate (nat c) xs)))"

section \<open>Step 2: distance and duration\<close>

text \<open>First version: \<^verbatim>\<open>direction === "left" ? -totalWidth : totalWidth\<close>, where
  \<^verbatim>\<open>totalWidth\<close> is the wrapper's \<^verbatim>\<open>scrollWidth\<close>.\<close>

definition distance_v1 :: "direction \<Rightarrow> nat \<Rightarrow> real" where
  "distance_v1 dir sw = (if dir = Left then - real sw else real sw)"

text \<open>Second version:
  \<^verbatim>\<open>direction === "left" ? -(totalWidth - containerWidth) : totalWidth - containerWidth\<close>.\<close>

definition distance_v2 :: "direction \<Rightarrow> nat \<Rightarrow> nat \<Rightarrow> real" where
  "distance_v2 dir sw cw =
     (if dir = Left then - (real sw - real cw) else real sw - real cw)"

text \<open>
  \<^verbatim>\<open>Math.abs(distance) / speed\<close>. A division by zero gives no finite number in
  JavaScript (\<^verbatim>\<open>Infinity\<close> or \<^verbatim>\<open>NaN\<close>); that result is \<open>None\<close> here. The quotient is kept
  as it is: it goes to the engine and the component never reads it back.
\<close>

definition duration :: "real \<Rightarrow> real \<Rightarrow> real option" where
  "duration dx spd = (if spd = 0 then None else Some (\<bar>dx\<bar> / spd))"

section \<open>The animation engine\<close>

text \<open>
  Modelled from the spec: the animation engine (the \<^verbatim>\<open>gsap\<close> package) is an external
  collaborator and its code is not in the repository. The model keeps what the component
  asks of it, as the spec describes it: "animate property to target value over duration
  with easing and repeat", plus pause, resume and cancel. A tween is the task that
  \<^verbatim>\<open>gsap.to(wrapper, {x, duration, ease: "linear", repeat: -1})\<close> creates: its target,
  its duration, whether it is paused, and its playhead (the time it has played).
\<close>

record tween =
  target :: real
  dur :: "real option"
  paused :: bool
  playhead :: real

text \<open>
  Modelled from the spec: the translation a tween gives the wrapper. The ease is linear
  and the tween repeats forever, restarting from the origin on completion, so the offset
  is the target scaled by the fraction of the current lap; a tween with no finite duration
  stays at the origin, and one with a duration of zero or less is at its target at once.
\<close>

definition offset :: "tween \<Rightarrow> real" where
  "offset t =
     (case dur t of
        None \<Rightarrow> 0
      | Some du \<Rightarrow> if 0 < du then target t * frac (playhead t / du) else target t)"

section \<open>The component's state\<close>

text \<open>
  A callback handed to \<^verbatim>\<open>setTimeout\<close>: the one of the first version's resize handler
  (dispatch a \<^verbatim>\<open>resize-trigger\<close> event on the container) and the one the second version
  debounces (\<^verbatim>\<open>() => setClonedItems([])\<close>).
\<close>

datatype task = ResizeTrigger | ClearCloned

text \<open>
  \<^item> \<open>clonedItems\<close>: the \<^verbatim>\<open>useState\<close> cell, initially \<^verbatim>\<open>[]\<close>;
  \<^item> \<open>clonedRef\<close>: which array the cell holds: \<open>Some r\<close> when it is the parent's \<^verbatim>\<open>items\<close>
    array \<open>r\<close>, \<open>None\<close> when it is an array the component made itself (the initial \<^verbatim>\<open>[]\<close>,
    a repeated list, the \<^verbatim>\<open>[]\<close> of the resize handler), which is identical to no other;
  \<^item> \<open>pending\<close>: the cell has changed since the last render, so React will render again;
  \<^item> \<open>thrown\<close>: the error an effect has thrown, if one has;
  \<^item> \<open>rendered\<close>: the list the last commit rendered, one wrapper child per element
    (\<^verbatim>\<open>clonedItems.map(...)\<close>); the effects of a commit see this list, in the DOM and as the
    \<^verbatim>\<open>clonedItems\<close> of their closure;
  \<^item> \<open>tweenRef\<close>: \<^verbatim>\<open>tweenRef.current\<close>, the identifier of a tween or \<^verbatim>\<open>null\<close>;
  \<^item> \<open>alive\<close>, \<open>nextId\<close>: the tweens the engine is running, and the next identifier;
  \<^item> \<open>mounted\<close>: \<^verbatim>\<open>containerRef.current\<close> and \<^verbatim>\<open>wrapperRef.current\<close> are set (both
    elements are rendered unconditionally, so the refs are set together at the first
    commit and cleared together at unmount);
  \<^item> \<open>hoverListeners\<close>: the \<^verbatim>\<open>mouseenter\<close>/\<^verbatim>\<open>mouseleave\<close> listeners are on the container;
  \<^item> \<open>resizeListener\<close>: the \<^verbatim>\<open>resize\<close> listener is on the window;
  \<^item> \<open>timers\<close>, \<open>nextTimer\<close>: the pending timeouts in the order they fire, and the next
    timer identifier;
  \<^item> \<open>timer\<close>: the variable \<^verbatim>\<open>timer\<close> in the closure of \<^verbatim>\<open>debounce\<close>.
\<close>

record 'a scroller =
  clonedItems :: "'a list"
  clonedRef :: "nat option"
  pending :: bool
  thrown :: "error option"
  rendered :: "'a list"
  tweenRef :: "nat option"
  alive :: "(nat \<times> tween) list"
  nextId :: nat
  mounted :: bool
  hoverListeners :: bool
  resizeListener :: bool
  timers :: "(nat \<times> task) list"
  nextTimer :: nat
  timer :: "nat option"

text \<open>The state at the first commit: \<^verbatim>\<open>useState([])\<close>, \<^verbatim>\<open>useRef(null)\<close> for the tween, both
  elements in the DOM, the wrapper without children.\<close>

definition initial :: "'a scroller" where
  "initial =
     \<lparr>clonedItems = [], clonedRef = None, pending = False, thrown = None,
      rendered = [], tweenRef = None, alive = [], nextId = 0,
      mounted = True, hoverListeners = False, resizeListener = False,
      timers = [], nextTimer = 0, timer = None\<rparr>"

subsection \<open>Calls into the engine\<close>

definition gsap_to :: "tween \<Rightarrow> 'a scroller \<Rightarrow> 'a scroller" where
  \<comment> \<open>\<^verbatim>\<open>tweenRef.current = gsap.to(wrapper, {...})\<close>\<close>
  "gsap_to t s =
     s\<lparr>alive := alive s @ [(nextId s, t)], tweenRef := Some (nextId s),
       nextId := Suc (nextId s)\<rparr>"

definition kill :: "nat \<Rightarrow> 'a scroller \<Rightarrow> 'a scroller" where
  "kill i s = s\<lparr>alive := filter (\<lambda>(j, t). j \<noteq> i) (alive s)\<rparr>"

definition pause :: "nat \<Rightarrow> 'a scroller \<Rightarrow> 'a scroller" where
  "pause i s =
     s\<lparr>alive := map (\<lambda>(j, t). if j = i then (j, t\<lparr>paused := True\<rparr>) else (j, t)) (alive s)\<rparr>"

definition resume :: "nat \<Rightarrow> 'a scroller \<Rightarrow> 'a scroller" where
  "resume i s =
     s\<lparr>alive := map (\<lambda>(j, t). if j = i then (j, t\<lparr>paused := False\<rparr>) else (j, t)) (alive s)\<rparr>"

text \<open>Modelled from the spec: the engine's clock advances by \<open>dt\<close> seconds; every running
  tween that is not paused plays on.\<close>

definition tick :: "real \<Rightarrow> 'a scroller \<Rightarrow> 'a scroller" where
  "tick dt s =
     s\<lparr>alive := map (\<lambda>(j, t). (j, if paused t then t else t\<lparr>playhead := playhead t + dt\<rparr>))
                  (alive s)\<rparr>"

subsection \<open>React's state cell and timers\<close>

text \<open>
  \<^verbatim>\<open>setClonedItems(xs)\<close>, where \<open>r\<close> says which array \<open>xs\<close> is (as for \<open>clonedRef\<close>). React
  drops an update of an unmounted component, and it drops an update with the very array
  the cell already holds (\<^verbatim>\<open>Object.is\<close>): then nothing is rendered again.
\<close>

definition setClonedItems :: "'a list \<Rightarrow> nat option \<Rightarrow> 'a scroller \<Rightarrow> 'a scroller" where
  "setClonedItems xs r s =
     (if mounted s
      then if r = clonedRef s \<and> r \<noteq> None then s
           else s\<lparr>clonedItems := xs, clonedRef := r, pending := True\<rparr>
      else s)"

text \<open>A render: the wrapper's children become the current \<^verbatim>\<open>clonedItems\<close>, and no
  change of the cell is pending any more.\<close>

definition rerender :: "'a scroller \<Rightarrow> 'a scroller" where
  "rerender s = (if mounted s then s\<lparr>rendered := clonedItems s, pending := False\<rparr> else s)"

definition setTimeout :: "task \<Rightarrow> 'a scroller \<Rightarrow> 'a scroller" where
  "setTimeout k s =
     s\<lparr>timers := timers s @ [(nextTimer s, k)], nextTimer := Suc (nextTimer s)\<rparr>"

definition clearTimeout :: "nat \<Rightarrow> 'a scroller \<Rightarrow> 'a scroller" where
  "clearTimeout i s = s\<lparr>timers := filter (\<lambda>(j, k). j \<noteq> i) (timers s)\<rparr>"

section \<open>The effects\<close>

subsection \<open>Step 1 (\<^verbatim>\<open>useLayoutEffect\<close>, dependencies \<^verbatim>\<open>[items, gap]\<close>)\<close>

text \<open>
  The same in both versions: return when a ref is missing; kill and forget the tween;
  measure the wrapper's children, which are the rendered list; commit \<^verbatim>\<open>items\<close> as it is
  when the width is not positive or there is no child, and the repeated list otherwise.
  When \<^verbatim>\<open>Array.from\<close> throws, the effect stops there: the tween has been killed and the
  state cell is not written. (React then unmounts the tree, which the \<open>Unmount\<close> event
  below does.)
\<close>

definition step1 :: "'a props \<Rightarrow> 'a dom \<Rightarrow> 'a scroller \<Rightarrow> 'a scroller" where
  "step1 p d s =
     (if \<not> mounted s then s
      else
        let s1 = (case tweenRef s of None \<Rightarrow> s | Some i \<Rightarrow> (kill i s)\<lparr>tweenRef := None\<rparr>);
            itemsArray = map (offsetWidth d) (rendered s1);
            tw = totalWidth itemsArray (gap p)
        in if tw \<le> 0 \<or> length itemsArray = 0
           then setClonedItems (items p) (Some (itemsRef p)) s1
           else
             case repeated (cloneCount (containerWidth d) tw) (items p) of
               Inl e \<Rightarrow> s1\<lparr>thrown := Some e\<rparr>
             | Inr ys \<Rightarrow> setClonedItems ys None s1)"

subsection \<open>Step 2 (\<^verbatim>\<open>useEffect\<close>, dependencies \<^verbatim>\<open>[clonedItems, speed, direction]\<close>)\<close>

text \<open>First version: two early returns, then the old tween is killed and forgotten, then
  the new one is created over the full scroll width.\<close>

definition tween_v1 :: "'a props \<Rightarrow> 'a dom \<Rightarrow> 'a list \<Rightarrow> tween" where
  \<comment> \<open>the tween asked of the engine when the list \<open>xs\<close> is rendered\<close>
  "tween_v1 p d xs =
     (let tw = scrollWidth d xs;
          dx = distance_v1 (direction p) tw
      in \<lparr>target = dx, dur = duration dx (speed p), paused = False, playhead = 0\<rparr>)"

definition step2_v1 :: "'a props \<Rightarrow> 'a dom \<Rightarrow> 'a scroller \<Rightarrow> 'a scroller" where
  "step2_v1 p d s =
     (if \<not> mounted s then s
      else if length (rendered s) = 0 then s
      else
        let s1 = (case tweenRef s of None \<Rightarrow> s | Some i \<Rightarrow> (kill i s)\<lparr>tweenRef := None\<rparr>)
        in gsap_to (tween_v1 p d (rendered s)) s1)"

text \<open>Second version: one early return, the old tween is killed (the ref is overwritten
  by the new tween), and the distance is the scroll width minus the container width.\<close>

definition tween_v2 :: "'a props \<Rightarrow> 'a dom \<Rightarrow> 'a list \<Rightarrow> tween" where
  "tween_v2 p d xs =
     (let tw = scrollWidth d xs;
          cw = containerWidth d;
          dx = distance_v2 (direction p) tw cw
      in \<lparr>target = dx, dur = duration dx (speed p), paused = False, playhead = 0\<rparr>)"

definition step2_v2 :: "'a props \<Rightarrow> 'a dom \<Rightarrow> 'a scroller \<Rightarrow> 'a scroller" where
  "step2_v2 p d s =
     (if \<not> mounted s \<or> length (rendered s) = 0 then s
      else
        let s1 = (case tweenRef s of None \<Rightarrow> s | Some i \<Rightarrow> kill i s)
        in gsap_to (tween_v2 p d (rendered s)) s1)"

subsection \<open>Step 3 (\<^verbatim>\<open>useEffect\<close>, dependencies \<^verbatim>\<open>[pauseOnHover]\<close>)\<close>

definition handleMouseEnter :: "'a scroller \<Rightarrow> 'a scroller" where
  "handleMouseEnter s = (case tweenRef s of None \<Rightarrow> s | Some i \<Rightarrow> pause i s)"

definition handleMouseLeave :: "'a scroller \<Rightarrow> 'a scroller" where
  "handleMouseLeave s = (case tweenRef s of None \<Rightarrow> s | Some i \<Rightarrow> resume i s)"

text \<open>The cleanup the effect returns: both listeners are removed.\<close>

definition step3_cleanup :: "'a scroller \<Rightarrow> 'a scroller" where
  "step3_cleanup s = s\<lparr>hoverListeners := False\<rparr>"

text \<open>
  A run of the effect. React first runs the cleanup that the previous run returned (there
  is none to run when the previous run returned early, and then no listener is attached
  either); then the body returns early when \<^verbatim>\<open>pauseOnHover\<close> is false or the container ref
  is missing, and attaches the two listeners otherwise.
\<close>

definition step3 :: "'a props \<Rightarrow> 'a scroller \<Rightarrow> 'a scroller" where
  "step3 p s =
     (let s1 = step3_cleanup s
      in if \<not> pauseOnHover p \<or> \<not> mounted s1 then s1 else s1\<lparr>hoverListeners := True\<rparr>)"

text \<open>\<^verbatim>\<open>container.dispatchEvent\<close>: the only listeners the component ever puts on the
  container are those of step 3.\<close>

definition dispatchEvent :: "string \<Rightarrow> 'a scroller \<Rightarrow> 'a scroller" where
  "dispatchEvent name s =
     (if hoverListeners s \<and> name = ''mouseenter'' then handleMouseEnter s
      else if hoverListeners s \<and> name = ''mouseleave'' then handleMouseLeave s
      else s)"

subsection \<open>Step 4 (\<^verbatim>\<open>useEffect\<close>, dependencies \<^verbatim>\<open>[]\<close>)\<close>

text \<open>First version: clear the list at every resize event, and set a timeout of 50 ms
  whose callback dispatches \<^verbatim>\<open>resize-trigger\<close> on the container if the refs are set.\<close>

definition handleResize_v1 :: "'a scroller \<Rightarrow> 'a scroller" where
  "handleResize_v1 s = setTimeout ResizeTrigger (setClonedItems [] None s)"

text \<open>Second version: \<^verbatim>\<open>debounce(func, delay)\<close> returns a function that clears the pending
  timer and sets a new one; the handler is \<^verbatim>\<open>debounce(() => setClonedItems([]), 100)\<close>.
  Delays are not modelled: the pending timeouts fire oldest first.\<close>

definition debounce :: "task \<Rightarrow> 'a scroller \<Rightarrow> 'a scroller" where
  "debounce func s =
     (let s1 = (case timer s of None \<Rightarrow> s | Some i \<Rightarrow> clearTimeout i s)
      in (setTimeout func s1)\<lparr>timer := Some (nextTimer s1)\<rparr>)"

definition handleResize_v2 :: "'a scroller \<Rightarrow> 'a scroller" where
  "handleResize_v2 s = debounce ClearCloned s"

datatype version = V1 | V2

definition step2 :: "version \<Rightarrow> 'a props \<Rightarrow> 'a dom \<Rightarrow> 'a scroller \<Rightarrow> 'a scroller" where
  "step2 v = (case v of V1 \<Rightarrow> step2_v1 | V2 \<Rightarrow> step2_v2)"

definition tween_of :: "version \<Rightarrow> 'a props \<Rightarrow> 'a dom \<Rightarrow> 'a list \<Rightarrow> tween" where
  "tween_of v = (case v of V1 \<Rightarrow> tween_v1 | V2 \<Rightarrow> tween_v2)"

definition handleResize :: "version \<Rightarrow> 'a scroller \<Rightarrow> 'a scroller" where
  "handleResize v = (case v of V1 \<Rightarrow> handleResize_v1 | V2 \<Rightarrow> handleResize_v2)"

text \<open>The effect itself adds the listener to the window, once, after the first commit.\<close>

definition step4 :: "'a scroller \<Rightarrow> 'a scroller" where
  "step4 s = s\<lparr>resizeListener := True\<rparr>"

definition step4_cleanup :: "'a scroller \<Rightarrow> 'a scroller" where
  "step4_cleanup s = s\<lparr>resizeListener := False\<rparr>"

text \<open>A \<^verbatim>\<open>resize\<close> event on the window.\<close>

definition windowResize :: "version \<Rightarrow> 'a scroller \<Rightarrow> 'a scroller" where
  "windowResize v s = (if resizeListener s then handleResize v s else s)"

text \<open>What a timeout does when it fires.\<close>

definition runTask :: "task \<Rightarrow> 'a scroller \<Rightarrow> 'a scroller" where
  "runTask k s =
     (case k of
        ResizeTrigger \<Rightarrow> if mounted s then dispatchEvent ''resize-trigger'' s else s
      | ClearCloned \<Rightarrow> setClonedItems [] None s)"

text \<open>The oldest pending timeout fires (all timeouts of one version have the same delay).\<close>

definition fireTimer :: "'a scroller \<Rightarrow> 'a scroller" where
  "fireTimer s =
     (case timers s of [] \<Rightarrow> s | (i, k) # rest \<Rightarrow> runTask k (s\<lparr>timers := rest\<rparr>))"

text \<open>
  Unmount: React runs the cleanups the effects returned and clears the refs. Only steps 3
  and 4 return a cleanup; steps 1 and 2 return none.
\<close>

definition unmount :: "'a scroller \<Rightarrow> 'a scroller" where
  "unmount s = (step4_cleanup (step3_cleanup s))\<lparr>mounted := False\<rparr>"

section \<open>Runs of the component\<close>

text \<open>
  What can happen to a mounted component, one event at a time. React decides when an
  effect runs (after a commit in which one of its dependencies changed); a run of events
  may hold any effect at any place, so every schedule of React is among the runs.
\<close>

datatype 'a event =
    RunStep1 "'a props" "'a dom"
  | RunStep2 "'a props" "'a dom"
  | RunStep3 "'a props"
  | RunStep4
  | Rerender
  | Dispatch string
  | WindowResize
  | TimerFires
  | Tick real
  | Unmount

fun exec :: "version \<Rightarrow> 'a event \<Rightarrow> 'a scroller \<Rightarrow> 'a scroller" where
  "exec v (RunStep1 p d) s = step1 p d s"
| "exec v (RunStep2 p d) s = step2 v p d s"
| "exec v (RunStep3 p) s = step3 p s"
| "exec v RunStep4 s = step4 s"
| "exec v Rerender s = rerender s"
| "exec v (Dispatch name) s = dispatchEvent name s"
| "exec v WindowResize s = windowResize v s"
| "exec v TimerFires s = fireTimer s"
| "exec v (Tick dt) s = tick dt s"
| "exec v Unmount s = unmount s"

fun run :: "version \<Rightarrow> 'a event list \<Rightarrow> 'a scroller \<Rightarrow> 'a scroller" where
  "run v [] s = s"
| "run v (e # es) s = run v es (exec v e s)"

text \<open>
  Mounting. After the first commit (empty wrapper) the layout effect runs, then the
  three passive effects of that commit; the \<^verbatim>\<open>setClonedItems\<close> of the layout effect makes
  React render again, and in that second commit only step 2 runs again, because
  \<^verbatim>\<open>clonedItems\<close> is the only dependency that changed (step 1 depends on \<^verbatim>\<open>items\<close> and
  \<^verbatim>\<open>gap\<close> alone).
\<close>

definition mountEvents :: "'a props \<Rightarrow> 'a dom \<Rightarrow> 'a event list" where
  "mountEvents p d = [RunStep1 p d, RunStep2 p d, RunStep3 p, RunStep4, Rerender, RunStep2 p d]"

definition mount :: "version \<Rightarrow> 'a props \<Rightarrow> 'a dom \<Rightarrow> 'a scroller" where
  "mount v p d = run v (mountEvents p d) initial"

text \<open>
  One resize event on the window and what React does after it. In the first version the
  handler clears the list at once, so React renders again and step 2 runs again
  (\<^verbatim>\<open>clonedItems\<close> changed); then the timeout fires. In the second the handler only sets
  the debounce timer; when it fires the list is cleared, React renders again and step 2
  runs again. Step 1 is in neither: its dependencies \<^verbatim>\<open>items\<close> and \<^verbatim>\<open>gap\<close> did not change,
  and nothing listens to \<^verbatim>\<open>resize-trigger\<close>.
\<close>

definition resizeEvents :: "version \<Rightarrow> 'a props \<Rightarrow> 'a dom \<Rightarrow> 'a event list" where
  "resizeEvents v p d =
     (case v of
        V1 \<Rightarrow> [WindowResize, Rerender, RunStep2 p d, TimerFires]
      | V2 \<Rightarrow> [WindowResize, TimerFires, Rerender, RunStep2 p d])"

text \<open>
  What React does with a pending change of the state cell, in a commit where the props
  are those of the render before: it renders again and runs step 2, the only effect that
  depends on \<^verbatim>\<open>clonedItems\<close>. With no pending change nothing runs.
\<close>

definition flush :: "version \<Rightarrow> 'a props \<Rightarrow> 'a dom \<Rightarrow> 'a scroller \<Rightarrow> 'a scroller" where
  "flush v p d s = (if pending s then step2 v p d (rerender s) else s)"

section \<open>The demo page\<close>

text \<open>
  The five items of the demo page (\<^verbatim>\<open>App.tsx\<close>), with \<^verbatim>\<open>pauseOnHover\<close> as there, and with
  the speed of the spec's numeric example (50 px/s). The items are opaque, so each is
  named by a string. The layout gives every item a width of 180 px, so that one copy measures
  \<open>5 * 180 + 4 * 25 = 1000\<close> px; the container is 400 px wide in the first layout and
  5000 px in the second.
\<close>

definition demoProps :: "string props" where
  "demoProps =
     \<lparr>items = [''Hello'', ''FaReact'', ''World'', ''img'', ''Another text''], itemsRef = 0,
      speed = 50, gap = 25, direction = Left, pauseOnHover = True\<rparr>"

definition itemWidth :: "string \<Rightarrow> nat" where
  "itemWidth x = 180"

definition wrapperWidth :: "string list \<Rightarrow> nat" where
  "wrapperWidth xs = 205 * length xs - 25"

definition demoDom :: "string dom" where
  "demoDom = \<lparr>containerWidth = 400, offsetWidth = itemWidth, scrollWidth = wrapperWidth\<rparr>"

definition wideDom :: "string dom" where
  "wideDom = \<lparr>containerWidth = 5000, offsetWidth = itemWidth, scrollWidth = wrapperWidth\<rparr>"

text \<open>The parent renders again and passes another array, with one item.\<close>

definition oneItemProps :: "string props" where
  "oneItemProps = demoProps\<lparr>items := [''x''], itemsRef := 1\<rparr>"

text \<open>
  A page whose single item has no width (an image that has not loaded, say), and the
  same page after the parent has rendered again and passed a new array with the same
  item.
\<close>

definition emptyWidth :: "string \<Rightarrow> nat" where
  "emptyWidth x = 0"

definition emptyScroll :: "string list \<Rightarrow> nat" where
  "emptyScroll xs = 0"

definition flatDom :: "string dom" where
  "flatDom = \<lparr>containerWidth = 400, offsetWidth = emptyWidth, scrollWidth = emptyScroll\<rparr>"

definition dotProps :: "string props" where
  "dotProps = demoProps\<lparr>items := [''img'']\<rparr>"

definition dotPropsNew :: "string props" where
  "dotPropsNew = dotProps\<lparr>itemsRef := 1\<rparr>"

section \<open>The invariant of the tween ref\<close>

text \<open>The engine runs no tween but the one \<^verbatim>\<open>tweenRef.current\<close> holds.\<close>

definition oneTween :: "'a scroller \<Rightarrow> bool" where
  "oneTween s \<longleftrightarrow> map fst (alive s) = (case tweenRef s of None \<Rightarrow> [] | Some i \<Rightarrow> [i])"

section \<open>Facts about doubles\<close>

lemma pow2_pos: "0 < pow2 k"
  by (simp add: pow2_def)

lemma pow2_add: "pow2 (j + k) = pow2 j * pow2 k"
proof -
  have "pow2 k = 2 powi k" for k
    by (simp add: pow2_def power_int_def field_simps)
  then show ?thesis
    by (simp add: power_int_add)
qed

lemma pow2_nat: "0 \<le> k \<Longrightarrow> pow2 k = 2 ^ nat k"
  by (simp add: pow2_def)

lemma pow2_neg: "pow2 (- k) = 1 / pow2 k"
  using pow2_add [of "- k" k] pow2_pos [of k] by (simp add: pow2_def field_simps)

lemma pow2_mono: "j \<le> k \<Longrightarrow> pow2 j \<le> pow2 k"
proof -
  assume "j \<le> k"
  then have "pow2 k = pow2 j * 2 ^ nat (k - j)"
    using pow2_add [of j "k - j"] by (simp add: pow2_nat)
  moreover have "(1::real) \<le> 2 ^ nat (k - j)"
    by simp
  ultimately show ?thesis
    using pow2_pos [of j] by (simp add: mult_le_cancel_left1)
qed

lemma rne_of_int: "rne (of_int n) = n"
  by (simp add: rne_def)

lemma rne_error: "\<bar>of_int (rne y) - y\<bar> \<le> 1 / 2"
proof -
  have "of_int \<lfloor>y\<rfloor> \<le> y" "y < of_int \<lfloor>y\<rfloor> + 1"
    by linarith+
  then show ?thesis
    by (auto simp: rne_def Let_def)
qed

lemma expo_bounds:
  assumes "0 < a"
  shows "pow2 (expo a) \<le> a" and "a < pow2 (expo a + 1)"
proof -
  have "pow2 (expo a) \<le> a \<and> a < pow2 (expo a + 1)"
  proof (cases "1 \<le> a")
    case True
    define n where "n = \<lfloor>a\<rfloor>"
    have n: "0 < n" "of_int n \<le> a" "a < of_int n + 1"
      using True unfolding n_def by linarith+
    have b: "2 ^ nat (bitlen n - 1) \<le> n" "n < 2 ^ nat (bitlen n)"
      using bitlen_bounds [OF n(1)] by simp_all
    have ge: "1 \<le> bitlen n"
      using n(1) bitlen_eq_zero_iff [of n] bitlen_nonneg [of n] by linarith
    have e: "expo a = bitlen n - 1"
      using True by (simp add: expo_def n_def)
    have r1: "(2::real) ^ nat (bitlen n - 1) \<le> of_int n"
      using b(1) by (metis of_int_le_iff of_int_numeral of_int_power)
    have p1: "pow2 (expo a) = 2 ^ nat (bitlen n - 1)"
      using ge by (simp add: e pow2_nat)
    have lo: "pow2 (expo a) \<le> a"
      using r1 n(2) unfolding p1 by linarith
    have "n + 1 \<le> 2 ^ nat (bitlen n)"
      using b(2) by simp
    then have r2: "of_int (n + 1) \<le> (2::real) ^ nat (bitlen n)"
      by (metis of_int_le_iff of_int_numeral of_int_power)
    have p2: "pow2 (expo a + 1) = 2 ^ nat (bitlen n)"
      using ge by (simp add: e pow2_nat)
    have hi: "a < pow2 (expo a + 1)"
      using r2 n(3) unfolding p2 by simp
    show ?thesis using lo hi by simp
  next
    case False
    define y where "y = 1 / a"
    define n where "n = \<lfloor>y\<rfloor>"
    define k where "k = bitlen n - 1"
    have y: "1 < y" "a = 1 / y" "0 < y"
      using False assms by (simp_all add: y_def)
    have n: "0 < n" "of_int n \<le> y" "y < of_int n + 1"
      using y(1) unfolding n_def by linarith+
    have b: "2 ^ nat (bitlen n - 1) \<le> n" "n < 2 ^ nat (bitlen n)"
      using bitlen_bounds [OF n(1)] by simp_all
    have ge: "1 \<le> bitlen n"
      using n(1) bitlen_eq_zero_iff [of n] bitlen_nonneg [of n] by linarith
    have k0: "0 \<le> k" using ge by (simp add: k_def)
    have r1: "(2::real) ^ nat k \<le> of_int n"
      using b(1) unfolding k_def by (metis of_int_le_iff of_int_numeral of_int_power)
    have lo: "pow2 k \<le> y"
      using r1 n(2) unfolding pow2_nat [OF k0] by linarith
    have "n + 1 \<le> 2 ^ nat (bitlen n)"
      using b(2) by simp
    then have r2: "of_int (n + 1) \<le> (2::real) ^ nat (bitlen n)"
      by (metis of_int_le_iff of_int_numeral of_int_power)
    have p2: "pow2 (k + 1) = 2 ^ nat (bitlen n)"
      using ge by (simp add: pow2_nat k_def)
    have hi: "y < pow2 (k + 1)"
      using r2 n(3) unfolding p2 by simp
    have e: "expo a = (if y = 2 ^ nat k then - k else - k - 1)"
      using False by (simp add: expo_def y_def n_def k_def Let_def)
    show ?thesis
    proof (cases "y = 2 ^ nat k")
      case True
      then have "a = pow2 (- k)"
        using y(2) k0 by (simp add: pow2_neg pow2_nat)
      moreover have "pow2 (- k) < pow2 (- k + 1)"
        using pow2_add [of "- k" 1] pow2_pos [of "- k"] by (simp add: pow2_def)
      ultimately show ?thesis
        using True e by simp
    next
      case False
      then have "pow2 k < y"
        using lo k0 by (simp add: pow2_nat)
      then have "1 / y < 1 / pow2 k"
        using frac_less2 [of 1 1 "pow2 k" y] pow2_pos [of k] by simp
      then have "a < pow2 (- k)"
        by (simp add: y(2) pow2_neg)
      moreover have "pow2 (- k - 1) \<le> a"
      proof -
        have "pow2 (- k - 1) = 1 / pow2 (k + 1)"
          using pow2_neg [of "k + 1"] by simp
        also have "\<dots> \<le> 1 / y"
          using hi y(3) by (simp add: frac_le)
        finally show ?thesis by (simp add: y(2))
      qed
      ultimately show ?thesis
        using False e by simp
    qed
  qed
  then show "pow2 (expo a) \<le> a" and "a < pow2 (expo a + 1)"
    by simp_all
qed

lemma round64_of_int:
  assumes "\<bar>n\<bar> < 2 ^ 53"
  shows "round64 (of_int n) = of_int n"
proof (cases "n = 0")
  case True
  then show ?thesis by (simp add: round64_def)
next
  case False
  define a :: real where "a = \<bar>of_int n\<bar>"
  define e where "e = expo a"
  have a: "a = of_int \<bar>n\<bar>" "1 \<le> a" "0 < a"
    using False by (simp_all add: a_def)
  have e0: "0 \<le> e"
  proof -
    have "0 < \<lfloor>a\<rfloor>"
      using a(2) by linarith
    then have "1 \<le> bitlen \<lfloor>a\<rfloor>"
      using bitlen_nonneg [of "\<lfloor>a\<rfloor>"] bitlen_eq_zero_iff [of "\<lfloor>a\<rfloor>"] by linarith
    then show ?thesis
      using a(2) by (simp add: e_def expo_def)
  qed
  have "pow2 e \<le> a"
    unfolding e_def by (rule expo_bounds(1) [OF a(3)])
  moreover have "a < 2 ^ 53"
    using assms unfolding a(1) by (metis of_int_less_iff of_int_numeral of_int_power)
  ultimately have "pow2 e < pow2 53"
    by (simp add: pow2_def)
  then have e1: "e \<le> 52"
    using pow2_mono [of 53 e] by linarith
  define j where "j = nat (52 - e)"
  have u: "pow2 (e - 52) = 1 / 2 ^ j"
    using e1 pow2_neg [of "52 - e"] by (simp add: j_def pow2_nat)
  have q: "a / pow2 (e - 52) = of_int (\<bar>n\<bar> * 2 ^ j)"
    by (simp add: u a(1))
  have m: "max e (- 1022) = e"
    using e0 by simp
  have "round64 (of_int n) = sgn (of_int n) * (of_int (rne (a / pow2 (e - 52))) * pow2 (e - 52))"
    using False m unfolding e_def a_def by (simp add: round64_def Let_def)
  also have "\<dots> = sgn (of_int n) * a"
    unfolding q rne_of_int by (simp add: u a(1))
  also have "\<dots> = of_int n"
    by (simp add: a_def sgn_mult_abs flip: abs_sgn)
  finally show ?thesis .
qed

lemma round64_of_nat: "n < 2 ^ 53 \<Longrightarrow> round64 (real n) = real n"
  using round64_of_int [of "int n"] by simp

lemma round64_error:
  assumes "pow2 (- 1022) \<le> x"
  shows "\<bar>round64 x - x\<bar> \<le> x / 2 ^ 53"
proof -
  have x: "0 < x"
    using assms pow2_pos [of "- 1022"] by linarith
  define e where "e = expo x"
  define u where "u = pow2 (e - 52)"
  have lo: "pow2 e \<le> x" and hi: "x < pow2 (e + 1)"
    unfolding e_def by (rule expo_bounds [OF x])+
  have "pow2 (- 1022) < pow2 (e + 1)"
    using assms hi by linarith
  then have m: "max e (- 1022) = e"
    using pow2_mono [of "e + 1" "- 1022"] by linarith
  have u0: "0 < u" by (simp add: u_def pow2_pos)
  have r: "round64 x = of_int (rne (x / u)) * u"
    using x by (simp add: round64_def Let_def e_def [symmetric] m u_def)
  have "round64 x - x = (of_int (rne (x / u)) - x / u) * u"
    using u0 by (simp add: r field_simps)
  then have "\<bar>round64 x - x\<bar> = \<bar>of_int (rne (x / u)) - x / u\<bar> * u"
    using u0 by (simp add: abs_mult)
  also have "\<dots> \<le> 1 / 2 * u"
    using rne_error [of "x / u"] u0 by (simp add: mult_right_mono)
  also have "\<dots> = pow2 e / 2 ^ 53"
    using pow2_add [of e "- 52"] by (simp add: u_def pow2_def)
  also have "\<dots> \<le> x / 2 ^ 53"
    using lo by (simp add: divide_right_mono)
  finally show ?thesis .
qed

lemma ceiling_round64_quotient:
  fixes W T :: nat
  assumes "0 < T" and "W < 2 ^ 25" and "T < 2 ^ 25"
  shows "\<lceil>round64 (real W / real T)\<rceil> = \<lceil>real W / real T\<rceil>"
proof (cases "W mod T = 0")
  case True
  then have "T dvd W"
    by (simp add: dvd_eq_mod_eq_0)
  then have q: "real W / real T = of_int (int (W div T))"
    using real_of_nat_div [of T W] by simp
  have "W div T \<le> W"
    by simp
  then have "W div T < 2 ^ 25"
    using assms(2) by linarith
  then have "int (W div T) < 2 ^ 25"
    by (metis of_nat_less_iff of_nat_numeral of_nat_power)
  then have "\<bar>int (W div T)\<bar> < 2 ^ 53"
    by simp
  then have "round64 (of_int (int (W div T))) = of_int (int (W div T))"
    by (rule round64_of_int)
  then show ?thesis
    by (simp only: q)
next
  case False
  define j where "j = W div T"
  define r where "r = W mod T"
  define x where "x = real W / real T"
  have r: "1 \<le> r" "r < T"
    using assms(1) False by (simp_all add: r_def)
  have T: "0 < real T" "real T < 2 ^ 25"
    using assms(1,3) by (simp_all add: of_nat_less_numeral_power_cancel_iff)
  have W: "real W < 2 ^ 25"
    using assms(2) by (simp add: of_nat_less_numeral_power_cancel_iff)
  have "W = j * T + r"
    by (simp add: j_def r_def)
  then have "real W = real (j * T + r)"
    by simp
  then have "real W = real j * real T + real r"
    by (simp only: of_nat_add of_nat_mult)
  then have x: "x = real j + real r / real T"
    using T(1) by (simp add: x_def field_simps)
  have inv: "1 / 2 ^ 25 < 1 / real T"
    using T by (simp add: frac_less2)
  have "1 / real T \<le> real r / real T"
    using r(1) T(1) by (simp add: divide_right_mono)
  then have lo: "real j + 1 / real T \<le> x"
    by (simp add: x)
  have "real r + 1 \<le> real T"
    using r(2) by linarith
  then have "(real r + 1) / real T \<le> 1"
    using T(1) by simp
  then have hi: "x + 1 / real T \<le> real j + 1"
    by (simp add: x add_divide_distrib)
  have p: "0 < 1 / real T" using T(1) by simp
  have "1 \<le> real T" using assms(1) by simp
  then have "x \<le> real W"
    unfolding x_def by (simp add: divide_le_eq mult_le_cancel_left1)
  then have x1: "x < 2 ^ 25" using W by linarith
  have "pow2 (- 1022) \<le> pow2 (- 25)"
    by (rule pow2_mono) simp
  moreover have "pow2 (- 25) = 1 / 2 ^ 25"
    by (simp add: pow2_def)
  ultimately have "pow2 (- 1022) \<le> x"
    using inv lo p by linarith
  then have "\<bar>round64 x - x\<bar> \<le> x / 2 ^ 53"
    by (rule round64_error)
  moreover have "x / 2 ^ 53 \<le> 2 ^ 25 / 2 ^ 53"
    using x1 by (simp add: divide_right_mono)
  moreover have "(2::real) ^ 25 / 2 ^ 53 < 1 / 2 ^ 25"
    by simp
  ultimately have err: "\<bar>round64 x - x\<bar> < 1 / real T"
    using inv by linarith
  have "real j < round64 x" "round64 x \<le> real j + 1"
    using err lo hi by linarith+
  then have "\<lceil>round64 x\<rceil> = int j + 1"
    by (intro ceiling_unique) simp_all
  moreover have "\<lceil>x\<rceil> = int j + 1"
  proof -
    have "real j < x" "x \<le> real j + 1"
      using lo hi p by linarith+
    then show ?thesis
      by (intro ceiling_unique) simp_all
  qed
  ultimately show ?thesis
    by (simp add: x_def)
qed

text \<open>Sums of whole numbers below \<open>2^53\<close> are exact.\<close>

lemma forEach_width_exact:
  "a + sum_list ws + g * (length ws - 1) < 2 ^ 53 \<Longrightarrow>
   forEach_width ws i (i + length ws) (real g) (real a) =
     real (a + sum_list ws + g * (length ws - 1))"
proof (induction ws arbitrary: i a)
  case Nil
  show ?case by simp
next
  case (Cons w ws)
  show ?case
  proof (cases ws)
    case Nil
    have "a + w < 2 ^ 53"
      using Cons.prems Nil by simp
    then have "round64 (real (a + w)) = real (a + w)"
      by (rule round64_of_nat)
    then show ?thesis
      using Nil by simp
  next
    case (Cons w' ws')
    have b: "a + w + g + sum_list ws + g * (length ws - 1) < 2 ^ 53"
      using Cons.prems Cons by (simp add: algebra_simps)
    then have c: "a + w < 2 ^ 53" "a + w + g < 2 ^ 53"
      by linarith+
    have r: "round64 (real (a + w)) = real (a + w)"
      "round64 (real (a + w + g)) = real (a + w + g)"
      using c by (simp_all only: round64_of_nat)
    have "forEach_width ws (Suc i) (Suc i + length ws) (real g) (real (a + w + g)) =
            real (a + w + g + sum_list ws + g * (length ws - 1))"
      using b by (rule Cons.IH)
    then show ?thesis
      using Cons r by (simp add: algebra_simps)
  qed
qed

lemma totalWidth_exact:
  "sum_list ws + g * (length ws - 1) < 2 ^ 53 \<Longrightarrow>
   totalWidth ws (real g) = real (sum_list ws + g * (length ws - 1))"
  using forEach_width_exact [of 0 ws g 0] by (simp add: totalWidth_def)

lemma sum_list_copies: "sum_list (map f (concat (replicate c xs))) = c * sum_list (map f xs)"
  by (induction c) (simp_all add: algebra_simps)

lemma length_copies: "length (concat (replicate c xs)) = c * length xs"
  by (induction c) simp_all

text \<open>The same facts on numerals, for evaluation.\<close>

lemma round64_zero: "round64 0 = 0"
  by (simp add: round64_def)

lemma round64_numeral: "(numeral k :: int) < 2 ^ 53 \<Longrightarrow> round64 (numeral k) = numeral k"
  using round64_of_int [of "numeral k"] by simp

lemma ceiling_round64_numeral:
  "(numeral a :: nat) < 2 ^ 25 \<Longrightarrow> (numeral b :: nat) < 2 ^ 25 \<Longrightarrow>
   \<lceil>round64 (numeral a / numeral b)\<rceil> = \<lceil>numeral a / numeral b :: real\<rceil>"
  using ceiling_round64_quotient [of "numeral b" "numeral a"] by simp

section \<open>Evaluation and basic facts\<close>

lemmas evals = step1_def step2_def step2_v1_def step2_v2_def step3_def step3_cleanup_def step4_def
  step4_cleanup_def dispatchEvent_def handleMouseEnter_def handleMouseLeave_def handleResize_def
  handleResize_v1_def handleResize_v2_def debounce_def windowResize_def runTask_def fireTimer_def
  unmount_def gsap_to_def kill_def pause_def resume_def tick_def setClonedItems_def rerender_def
  setTimeout_def clearTimeout_def initial_def mount_def mountEvents_def resizeEvents_def flush_def
  tween_v1_def tween_v2_def tween_of_def distance_v1_def distance_v2_def duration_def
  demoProps_def demoDom_def wideDom_def itemWidth_def wrapperWidth_def oneItemProps_def
  flatDom_def emptyWidth_def emptyScroll_def dotProps_def dotPropsNew_def totalWidth_def
  cloneCount_def repeated_def round64_zero round64_numeral ceiling_round64_numeral

lemmas mount_unfold = mount_def mountEvents_def initial_def step1_def step2_def
      step2_v1_def step2_v2_def step3_def step3_cleanup_def step4_def rerender_def
       setClonedItems_def gsap_to_def kill_def totalWidth_def Let_def

text \<open>The cloning branch of step 1, whatever list is rendered when it runs.\<close>

lemma step1_clone:
  assumes "mounted s" and "rendered s \<noteq> []"
    and "0 < totalWidth (map (offsetWidth d) (rendered s)) (gap p)"
    and "repeated (cloneCount (containerWidth d)
           (totalWidth (map (offsetWidth d) (rendered s)) (gap p))) (items p) = Inr ys"
  shows "clonedItems (step1 p d s) = ys"
  using assms by (auto simp: step1_def kill_def setClonedItems_def Let_def split: option.splits)

lemma step1_mounted: "mounted (step1 p d s) = mounted s"
  by (auto simp: step1_def kill_def setClonedItems_def Let_def split: option.splits sum.splits)

lemma rendered_rerender: "mounted s \<Longrightarrow> rendered (rerender s) = clonedItems s"
  by (simp add: rerender_def)

lemma mount_demo_mounted: "mounted (mount v demoProps d)"
  by (cases v) (simp_all add: mount_unfold demoProps_def tween_v1_def tween_v2_def)

lemma mount_demo_rendered: "rendered (mount v demoProps d) = items demoProps"
  by (cases v) (simp_all add: mount_unfold demoProps_def tween_v1_def tween_v2_def)

lemma demo_totalWidth:
  "totalWidth (map (offsetWidth demoDom) (items demoProps)) (gap demoProps) = 1000"
  "totalWidth (map (offsetWidth wideDom) (items demoProps)) (gap demoProps) = 1000"
  by (simp_all add: demoProps_def demoDom_def wideDom_def itemWidth_def totalWidth_def
      round64_numeral)

text \<open>
  Widths, gap and container in whole pixels below \<open>2^25\<close>: the one-copy width is the
  exact sum, the clone count is \<open>ceil(W / T) + 2\<close>, no error is thrown, the copies
  measure \<open>c * T + (c - 1) * gap\<close>, and \<open>c * T\<close> covers the container and two copies.
\<close>

lemma copies_width:
  fixes w :: "'a \<Rightarrow> nat" and g cw T :: nat
  assumes "xs \<noteq> []" and T: "T = sum_list (map w xs) + g * (length xs - 1)"
    and "0 < T" and "T < 2 ^ 25" and "g < 2 ^ 25" and "cw < 2 ^ 25"
  defines "c \<equiv> nat (cloneCount cw (real T))"
  shows "totalWidth (map w xs) (real g) = real T"
    and "repeated (cloneCount cw (real T)) xs = Inr (concat (replicate c xs))"
    and "totalWidth (map w (concat (replicate c xs))) (real g) =
           real c * real T + (real c - 1) * real g"
    and "real cw + 2 * real T \<le> real c * real T"
    and "cloneCount cw (real T) = \<lceil>real cw / real T\<rceil> + 2"
proof -
  define k where "k = \<lceil>real cw / real T\<rceil>"
  have T0: "0 < real T" "1 \<le> real T"
    using assms(3) by simp_all
  have cc: "cloneCount cw (real T) = k + 2"
    using ceiling_round64_quotient [OF assms(3) assms(6) assms(4)] by (simp add: cloneCount_def k_def)
  then show "cloneCount cw (real T) = \<lceil>real cw / real T\<rceil> + 2"
    by (simp add: k_def)
  have "0 \<le> real cw / real T"
    by simp
  then have k0: "0 \<le> k"
    unfolding k_def by (simp add: ceiling_le_iff zero_le_ceiling order_less_le_trans [of "- 1" 0])
  have "real cw / real T \<le> real cw"
    using T0 by (simp add: divide_le_eq mult_le_cancel_left1)
  then have "k \<le> int cw"
    unfolding k_def by (simp add: ceiling_le_iff)
  then have k1: "nat k \<le> cw"
    using k0 by linarith
  have c: "c = nat k + 2"
    using k0 by (simp add: c_def cc nat_add_distrib)
  have c25: "c \<le> 2 ^ 25 + 1"
    using k1 assms(6) unfolding c by linarith
  have "k + 2 \<le> int (2 ^ 25 + 1)"
    using c25 k0 unfolding c by linarith
  then have "\<not> 2 ^ 32 - 1 < k + 2"
    by simp
  then show "repeated (cloneCount cw (real T)) xs = Inr (concat (replicate c xs))"
    by (simp add: repeated_def cc c_def)
  show one: "totalWidth (map w xs) (real g) = real T"
  proof -
    have "sum_list (map w xs) + g * (length (map w xs) - 1) < 2 ^ 53"
      using assms(4) unfolding T by simp
    then show ?thesis
      using totalWidth_exact [of "map w xs" g] by (simp add: T)
  qed
  obtain n where n: "length xs = Suc n"
    using assms(1) by (cases xs) auto
  obtain c' where c': "c = Suc c'"
    unfolding c by (cases "nat k") simp_all
  have id: "sum_list (map w (concat (replicate c xs)))
              + g * (length (map w (concat (replicate c xs))) - 1) = c * T + (c - 1) * g"
    by (simp add: sum_list_copies length_copies T n c' algebra_simps)
  have "c * T + (c - 1) * g \<le> c * (T + g)"
    by (simp add: algebra_simps c')
  also have "\<dots> \<le> (2 ^ 25 + 1) * (2 ^ 25 + 2 ^ 25)"
    using c25 assms(4,5) by (intro mult_le_mono) simp_all
  also have "\<dots> < 2 ^ 53"
    by simp
  finally have small: "c * T + (c - 1) * g < 2 ^ 53" .
  have "totalWidth (map w (concat (replicate c xs))) (real g) = real (c * T + (c - 1) * g)"
    using totalWidth_exact [of "map w (concat (replicate c xs))" g] small unfolding id by simp
  then show "totalWidth (map w (concat (replicate c xs))) (real g) =
           real c * real T + (real c - 1) * real g"
    by (simp add: c' algebra_simps)
  have "real cw / real T \<le> of_int k"
    unfolding k_def by (rule le_of_int_ceiling)
  then have "real cw \<le> of_int k * real T"
    by (simp only: pos_divide_le_eq [OF T0(1)])
  moreover have "real c = of_int k + 2"
    using k0 by (simp add: c)
  ultimately show "real cw + 2 * real T \<le> real c * real T"
    by (simp add: algebra_simps)
qed

lemma step2_v1_last:
  "mounted s \<Longrightarrow> rendered s \<noteq> [] \<Longrightarrow>
     snd (last (alive (step2_v1 p d s))) = tween_v1 p d (rendered s)"
  by (simp add: step2_v1_def gsap_to_def kill_def Let_def split: option.splits)

lemma step2_v2_last:
  "mounted s \<Longrightarrow> rendered s \<noteq> [] \<Longrightarrow>
     snd (last (alive (step2_v2 p d s))) = tween_v2 p d (rendered s)"
  by (simp add: step2_v2_def gsap_to_def kill_def Let_def split: option.splits)

subsection \<open>Every event keeps the invariant\<close>

lemma oneTween_initial: "oneTween initial"
  by (simp add: oneTween_def initial_def)

lemma map_fst_single: "map fst xs = [i] \<longleftrightarrow> (\<exists>t. xs = [(i, t)])"
  by (cases xs) auto

lemma oneTween_step1: "oneTween s \<Longrightarrow> oneTween (step1 p d s)"
  by (auto simp: oneTween_def step1_def kill_def setClonedItems_def Let_def map_fst_single
      split: option.splits sum.splits)

lemma oneTween_step2: "oneTween s \<Longrightarrow> oneTween (step2 v p d s)"
  by (cases v)
    (auto simp: oneTween_def step2_def step2_v1_def step2_v2_def kill_def gsap_to_def Let_def
      map_fst_single split: option.splits)

lemma oneTween_exec: "oneTween s \<Longrightarrow> oneTween (exec v e s)"
proof (cases e)
  case (RunStep1 p d)
  then show "oneTween s \<Longrightarrow> ?thesis" by (simp add: oneTween_step1)
next
  case (RunStep2 p d)
  then show "oneTween s \<Longrightarrow> ?thesis" by (simp add: oneTween_step2)
next
  case (Dispatch name)
  then show "oneTween s \<Longrightarrow> ?thesis"
    by (auto simp: oneTween_def dispatchEvent_def handleMouseEnter_def handleMouseLeave_def
        pause_def resume_def map_fst_single split: option.splits)
next
  case WindowResize
  then show "oneTween s \<Longrightarrow> ?thesis"
    by (cases v)
      (auto simp: oneTween_def windowResize_def handleResize_def handleResize_v1_def
        handleResize_v2_def debounce_def setTimeout_def clearTimeout_def setClonedItems_def
        Let_def split: option.splits)
next
  case TimerFires
  then show "oneTween s \<Longrightarrow> ?thesis"
    by (auto simp: oneTween_def fireTimer_def runTask_def dispatchEvent_def setClonedItems_def
        split: option.splits list.splits task.splits)
next
  case (Tick dt)
  then show "oneTween s \<Longrightarrow> ?thesis"
    by (auto simp: oneTween_def tick_def map_fst_single split: option.splits)
qed (auto simp: oneTween_def step3_def step3_cleanup_def step4_def step4_cleanup_def rerender_def
      unmount_def Let_def)

lemma oneTween_run: "oneTween s \<Longrightarrow> oneTween (run v es s)"
  by (induction es arbitrary: s) (simp_all add: oneTween_exec)

lemma oneTween_length: "oneTween s \<Longrightarrow> length (alive s) \<le> 1"
proof -
  assume "oneTween s"
  then have "length (map fst (alive s)) \<le> 1"
    by (simp add: oneTween_def split: option.splits)
  then show ?thesis by simp
qed

lemma oneTween_step2_alive:
  "oneTween s \<Longrightarrow>
   alive (step2 v p d s) =
     (if mounted s \<and> rendered s \<noteq> [] then [(nextId s, tween_of v p d (rendered s))]
      else alive s)"
  by (cases v)
    (auto simp: oneTween_def step2_def step2_v1_def step2_v2_def kill_def gsap_to_def Let_def
      tween_of_def map_fst_single split: option.splits)

subsection \<open>Only step 3 attaches the hover listeners\<close>

lemma hover_only_step3:
  "hoverListeners (exec v e s) \<Longrightarrow> hoverListeners s \<or> (\<exists>p. e = RunStep3 p \<and> pauseOnHover p)"
proof (cases e)
  case (RunStep1 p d)
  then show "hoverListeners (exec v e s) \<Longrightarrow> ?thesis"
    by (auto simp: step1_def kill_def setClonedItems_def Let_def
        split: option.splits sum.splits if_splits)
next
  case (RunStep2 p d)
  then show "hoverListeners (exec v e s) \<Longrightarrow> ?thesis"
    by (cases v) (auto simp: step2_def step2_v1_def step2_v2_def kill_def gsap_to_def Let_def
        split: option.splits if_splits)
next
  case (RunStep3 p)
  then show "hoverListeners (exec v e s) \<Longrightarrow> ?thesis"
    by (auto simp: step3_def step3_cleanup_def Let_def split: if_splits)
next
  case (Dispatch name)
  then show "hoverListeners (exec v e s) \<Longrightarrow> ?thesis"
    by (auto simp: dispatchEvent_def handleMouseEnter_def handleMouseLeave_def
        pause_def resume_def split: option.splits if_splits)
next
  case WindowResize
  then show "hoverListeners (exec v e s) \<Longrightarrow> ?thesis"
    by (cases v)
      (auto simp: windowResize_def handleResize_def handleResize_v1_def
        handleResize_v2_def debounce_def setTimeout_def clearTimeout_def setClonedItems_def
        Let_def split: option.splits if_splits)
next
  case TimerFires
  then show "hoverListeners (exec v e s) \<Longrightarrow> ?thesis"
    by (auto simp: fireTimer_def runTask_def dispatchEvent_def setClonedItems_def
        split: option.splits list.splits task.splits if_splits)
qed (auto simp: step4_def rerender_def tick_def unmount_def step3_cleanup_def step4_cleanup_def
      split: if_splits)

lemma mount_demo_alive:
  "alive (mount v demoProps d) = [(0, tween_of v demoProps d (items demoProps))]"
  "tweenRef (mount v demoProps d) = Some 0"
  "hoverListeners (mount v demoProps d)"
  by (cases v; simp add: mount_unfold tween_of_def demoProps_def)+

subsection \<open>Step 1 on the demo pages\<close>

lemma demo_copies_wide:
  "repeated (cloneCount (containerWidth wideDom) 1000) (items demoProps) =
     Inr (concat (replicate 7 (items demoProps)))"
  "totalWidth (map (offsetWidth wideDom) (concat (replicate 7 (items demoProps)))) (gap demoProps) = 7150"
proof -
  have n: "items demoProps \<noteq> []" by (simp add: demoProps_def)
  have T: "(1000::nat) = sum_list (map itemWidth (items demoProps)) + 25 * (length (items demoProps) - 1)"
    by (simp add: demoProps_def itemWidth_def)
  have c: "nat (cloneCount 5000 (real 1000)) = 7"
    using copies_width(5) [OF n T, of 5000] by simp
  show "repeated (cloneCount (containerWidth wideDom) 1000) (items demoProps) =
     Inr (concat (replicate 7 (items demoProps)))"
    using copies_width(2) [OF n T, of 5000] c by (simp add: wideDom_def)
  show "totalWidth (map (offsetWidth wideDom) (concat (replicate 7 (items demoProps)))) (gap demoProps) = 7150"
    using copies_width(3) [OF n T, of 5000] c by (simp add: wideDom_def demoProps_def)
qed

lemma cloneCount_demo:
  "cloneCount 400 1000 = 3" "cloneCount 5000 1000 = 7" "cloneCount 400 180 = 5"
  using ceiling_round64_quotient [of 1000 400] ceiling_round64_quotient [of 1000 5000]
    ceiling_round64_quotient [of 180 400]
  by (simp_all add: cloneCount_def)

lemma rendered_step2: "rendered (step2 v p d s) = rendered s"
  by (cases v)
    (simp_all add: step2_def step2_v1_def step2_v2_def gsap_to_def kill_def Let_def
      split: option.splits)

text \<open>After the cloning branch of step 1 the state has changed, so React renders the
  repeated list.\<close>

lemma flush_step1_clone:
  assumes "mounted s" and "rendered s \<noteq> []"
    and "0 < totalWidth (map (offsetWidth d) (rendered s)) (gap p)"
    and "repeated (cloneCount (containerWidth d)
           (totalWidth (map (offsetWidth d) (rendered s)) (gap p))) (items p) = Inr ys"
  shows "rendered (flush v p d (step1 p d s)) = ys"
proof -
  have "pending (step1 p d s)"
    using assms
    by (auto simp: step1_def kill_def setClonedItems_def Let_def split: option.splits)
  then have "flush v p d (step1 p d s) = step2 v p d (rerender (step1 p d s))"
    by (simp add: flush_def)
  then show ?thesis
    using step1_clone [OF assms] assms(1)
    by (simp add: rendered_step2 rendered_rerender step1_mounted)
qed





section \<open>Claims\<close>

text \<open>
  C1. The claim: for a non-empty \<open>items\<close> whose one-copy width \<open>totalWidth\<close> (the sum of the
  item widths plus the gap after each item except the last) is strictly positive, the
  committed list is \<open>cloneCount\<close> concatenated copies of \<open>items\<close>, with
  \<open>cloneCount = ceil(containerWidth / totalWidth) + 2\<close>. The code's own comment says that it
  measures "the total width of the original items", but step 1 measures the children
  that the wrapper holds when it runs. On the demo page one copy measures 1000 px and the
  container 400 px, which makes three copies: the mount commits one copy, in both
  versions, because the wrapper is still empty. When the parent then passes another
  array, with one item of 180 px (five copies), step 1 divides by the 1000 px of the
  old children and commits three copies.
\<close>

theorem C1_mount_commits_one_copy:
  "rendered (mount V1 demoProps demoDom) = items demoProps
   \<and> rendered (mount V2 demoProps demoDom) = items demoProps
   \<and> totalWidth (map (offsetWidth demoDom) (items demoProps)) (gap demoProps) = 1000
   \<and> repeated (cloneCount (containerWidth demoDom) 1000) (items demoProps) =
       Inr (concat (replicate 3 (items demoProps)))
   \<and> items demoProps \<noteq> concat (replicate 3 (items demoProps))
   \<and> rendered (flush V1 oneItemProps demoDom (step1 oneItemProps demoDom (mount V1 demoProps demoDom))) =
       concat (replicate 3 (items oneItemProps))
   \<and> totalWidth (map (offsetWidth demoDom) (items oneItemProps)) (gap oneItemProps) = 180
   \<and> repeated (cloneCount (containerWidth demoDom) 180) (items oneItemProps) =
       Inr (concat (replicate 5 (items oneItemProps)))"
proof -
  have a: "repeated (cloneCount (containerWidth demoDom) 1000) xs = Inr (concat (replicate 3 xs))"
    for xs :: "string list"
    by (simp add: demoDom_def cloneCount_demo repeated_def)
  have b: "repeated (cloneCount (containerWidth demoDom) 180) xs = Inr (concat (replicate 5 xs))"
    for xs :: "string list"
    by (simp add: demoDom_def cloneCount_demo repeated_def)
  have "length (concat (replicate 3 (items demoProps))) = 15"
    by (simp add: length_copies demoProps_def)
  moreover have "length (items demoProps) = 5"
    by (simp add: demoProps_def)
  ultimately have "length (items demoProps) \<noteq> length (concat (replicate 3 (items demoProps)))"
    by simp
  then have c: "items demoProps \<noteq> concat (replicate 3 (items demoProps))"
    by auto
  have g: "gap oneItemProps = gap demoProps"
    by (simp add: oneItemProps_def)
  have d: "rendered (flush V1 oneItemProps demoDom
              (step1 oneItemProps demoDom (mount V1 demoProps demoDom))) =
       concat (replicate 3 (items oneItemProps))"
    by (rule flush_step1_clone)
      (simp_all add: mount_demo_mounted mount_demo_rendered g demo_totalWidth a,
        simp add: demoProps_def)
  have e: "totalWidth (map (offsetWidth demoDom) (items oneItemProps)) (gap oneItemProps) = 180"
    by (simp add: oneItemProps_def demoProps_def demoDom_def itemWidth_def totalWidth_def
        round64_numeral)
  show ?thesis
    using a b c d e by (simp add: mount_demo_rendered demo_totalWidth)
qed

text \<open>
  C2. The claim: for a non-empty \<open>items\<close> with one-copy width \<open>totalWidth > 0\<close> and any
  container width \<open>W\<close>, the measured width of the cloned list (\<open>cloneCount\<close> copies of
  \<open>totalWidth\<close> plus the gaps between consecutive copies) is at least \<open>2W\<close>. It fails: on
  the demo page in a container of 5000 px, one copy measures 1000 px, seven copies are
  committed and they measure 7150 px, less than 10000 px.
\<close>

theorem C2_twice_container_counterexample:
  "items demoProps \<noteq> []
   \<and> 0 < totalWidth (map (offsetWidth wideDom) (items demoProps)) (gap demoProps)
   \<and> totalWidth (map (offsetWidth wideDom)
        (rendered (rerender (step1 demoProps wideDom (mount V1 demoProps wideDom))))) (gap demoProps)
      < 2 * real (containerWidth wideDom)"
proof -
  have n: "items demoProps \<noteq> []" by (simp add: demoProps_def)
  have "clonedItems (step1 demoProps wideDom (mount V1 demoProps wideDom)) =
          concat (replicate 7 (items demoProps))"
    by (rule step1_clone)
      (simp_all add: mount_demo_mounted mount_demo_rendered n demo_totalWidth demo_copies_wide)
  then have r: "rendered (rerender (step1 demoProps wideDom (mount V1 demoProps wideDom))) =
          concat (replicate 7 (items demoProps))"
    by (simp add: rendered_rerender step1_mounted mount_demo_mounted)
  show ?thesis
    using n by (simp add: r demo_totalWidth demo_copies_wide) (simp add: wideDom_def)
qed

text \<open>
  C2, amended. For a non-empty item list with widths, gap and container width \<open>W\<close> in
  whole pixels below \<open>2^25\<close> (so that the sums of doubles are exact) and a one-copy width
  \<open>totalWidth > 0\<close>: the clone count is \<open>ceil(W / totalWidth) + 2\<close>, and that many copies of
  the list measure \<open>cloneCount * totalWidth + (cloneCount - 1) * gap\<close>, which is at least
  \<open>W + 2 * totalWidth\<close>: the container once, and two copies more. (Which list step 1
  measures, and so whether these copies are what it commits, is the matter of C1.)
\<close>

theorem C2_clone_width_covers:
  fixes w :: "'a \<Rightarrow> nat" and g cw T :: nat
  assumes "xs \<noteq> []" and "T = sum_list (map w xs) + g * (length xs - 1)"
    and "0 < T" and "T < 2 ^ 25" and "g < 2 ^ 25" and "cw < 2 ^ 25"
  shows "totalWidth (map w xs) (real g) = real T
       \<and> cloneCount cw (real T) = \<lceil>real cw / real T\<rceil> + 2
       \<and> repeated (cloneCount cw (real T)) xs =
           Inr (concat (replicate (nat (cloneCount cw (real T))) xs))
       \<and> totalWidth (map w (concat (replicate (nat (cloneCount cw (real T))) xs))) (real g) =
           real (nat (cloneCount cw (real T))) * real T
           + (real (nat (cloneCount cw (real T))) - 1) * real g
       \<and> real cw + 2 * real T
           \<le> totalWidth (map w (concat (replicate (nat (cloneCount cw (real T))) xs))) (real g)"
proof -
  note cw = copies_width [OF assms]
  have "0 < nat (cloneCount cw (real T))"
    using cw(4) assms(3) by (cases "nat (cloneCount cw (real T))") simp_all
  then have "0 \<le> (real (nat (cloneCount cw (real T))) - 1) * real g"
    by simp
  then show ?thesis
    using cw by simp
qed

text \<open>The demo page in a container of 400 px: one copy measures 1000 px, three copies
  3050 px, and the container and two copies make 2400 px.\<close>

theorem C2_clone_width_covers_witness:
  "totalWidth (map itemWidth (items demoProps)) 25 = 1000
   \<and> cloneCount 400 1000 = 3
   \<and> totalWidth (map itemWidth (concat (replicate 3 (items demoProps)))) 25 = 3050
   \<and> (400::real) + 2 * 1000 \<le> 3050"
proof -
  have n: "items demoProps \<noteq> []" by (simp add: demoProps_def)
  have T: "(1000::nat) = sum_list (map itemWidth (items demoProps)) + 25 * (length (items demoProps) - 1)"
    by (simp add: demoProps_def itemWidth_def)
  have b: "(0::nat) < 1000" "(1000::nat) < 2 ^ 25" "(25::nat) < 2 ^ 25" "(400::nat) < 2 ^ 25"
    by simp_all
  have c: "cloneCount 400 1000 = 3"
    using C2_clone_width_covers [OF n T b] by simp
  show ?thesis
    using C2_clone_width_covers [OF n T b] by (simp add: c)
qed

text \<open>
  C3. The claim: for a non-empty rendered list with scroll width \<open>scrollWidth\<close> and a
  positive speed, the duration of the animation is \<open>scrollWidth / speed\<close>, in both
  directions. It fails in the second version: on the demo page the wrapper's scroll
  width is 1000 px and the speed 50 px/s, which would give 20 s, and the tween that is
  created has a duration of 12 s, because the container's 400 px are subtracted.
\<close>

theorem C3_duration_v2_counterexample:
  "rendered (mount V2 demoProps demoDom) \<noteq> [] \<and> 0 < speed demoProps
   \<and> real (scrollWidth demoDom (rendered (mount V2 demoProps demoDom))) / speed demoProps = 20
   \<and> dur (snd (last (alive (mount V2 demoProps demoDom)))) = Some 12"
  by (simp add: evals Let_def)

text \<open>
  C3, amended. For a non-empty rendered list and a positive speed, the duration of the
  tween that step 2 creates is \<open>|distance| / speed\<close> in both directions: that is
  \<open>scrollWidth / speed\<close> in the first version, and
  \<open>|scrollWidth - containerWidth| / speed\<close> in the second.
\<close>

theorem C3_duration_of_distance:
  assumes "mounted s" and "rendered s \<noteq> []" and "0 < speed p"
  shows "dur (snd (last (alive (step2_v1 p d s)))) =
           Some (real (scrollWidth d (rendered s)) / speed p)
       \<and> dur (snd (last (alive (step2_v2 p d s)))) =
           Some (\<bar>real (scrollWidth d (rendered s)) - real (containerWidth d)\<bar> / speed p)"
  using assms
  by (simp add: step2_v1_last step2_v2_last tween_v1_def tween_v2_def distance_v1_def
      distance_v2_def duration_def Let_def abs_minus_commute)

text \<open>The numeric example of the spec: 1000 px at 50 px/s last 20 s in the first version
  (and 12 s in the second, in a container of 400 px).\<close>

theorem C3_duration_of_distance_witness:
  "dur (snd (last (alive (step2_v1 demoProps demoDom (mount V1 demoProps demoDom))))) = Some 20
   \<and> dur (snd (last (alive (step2_v2 demoProps demoDom (mount V2 demoProps demoDom))))) = Some 12"
proof -
  have n: "rendered (mount v demoProps demoDom) \<noteq> []" for v
    by (simp add: mount_demo_rendered) (simp add: demoProps_def)
  have sp: "0 < speed demoProps" by (simp add: demoProps_def)
  have "dur (snd (last (alive (step2_v1 demoProps demoDom (mount V1 demoProps demoDom))))) = Some 20"
    using C3_duration_of_distance [OF mount_demo_mounted [of V1 demoDom] n [of V1] sp, of demoDom]
    by (simp add: mount_demo_rendered) (simp add: demoProps_def demoDom_def wrapperWidth_def)
  moreover
  have "dur (snd (last (alive (step2_v2 demoProps demoDom (mount V2 demoProps demoDom))))) = Some 12"
    using C3_duration_of_distance [OF mount_demo_mounted [of V2 demoDom] n [of V2] sp, of demoDom]
    by (simp add: mount_demo_rendered) (simp add: demoProps_def demoDom_def wrapperWidth_def)
  ultimately show ?thesis by simp
qed




text \<open>
  C5. For a fixed rendered list, scroll width, container width and speed, changing the
  direction from left to right reverses the sign of the tween's target translation and
  leaves its absolute distance and its duration unchanged, in both versions.
\<close>

theorem C5_direction_reverses_sign:
  "target (tween_v1 (p\<lparr>direction := Right\<rparr>) d xs) = - target (tween_v1 (p\<lparr>direction := Left\<rparr>) d xs)
   \<and> \<bar>target (tween_v1 (p\<lparr>direction := Right\<rparr>) d xs)\<bar> = \<bar>target (tween_v1 (p\<lparr>direction := Left\<rparr>) d xs)\<bar>
   \<and> dur (tween_v1 (p\<lparr>direction := Right\<rparr>) d xs) = dur (tween_v1 (p\<lparr>direction := Left\<rparr>) d xs)
   \<and> target (tween_v2 (p\<lparr>direction := Right\<rparr>) d xs) = - target (tween_v2 (p\<lparr>direction := Left\<rparr>) d xs)
   \<and> \<bar>target (tween_v2 (p\<lparr>direction := Right\<rparr>) d xs)\<bar> = \<bar>target (tween_v2 (p\<lparr>direction := Left\<rparr>) d xs)\<bar>
   \<and> dur (tween_v2 (p\<lparr>direction := Right\<rparr>) d xs) = dur (tween_v2 (p\<lparr>direction := Left\<rparr>) d xs)"
  by (simp add: tween_v1_def tween_v2_def distance_v1_def distance_v2_def duration_def Let_def)

text \<open>
  C6. At most one tween is running at any time, whatever happens to the component: the
  only running tween is the one \<^verbatim>\<open>tweenRef.current\<close> holds, and when step 2 starts a tween
  the previous one has been killed, so the new tween is the only one.
\<close>

theorem C6_one_tween:
  "length (alive (run v es initial)) \<le> 1
   \<and> map fst (alive (run v es initial)) =
       (case tweenRef (run v es initial) of None \<Rightarrow> [] | Some i \<Rightarrow> [i])
   \<and> alive (step2 v p d (run v es initial)) =
       (if mounted (run v es initial) \<and> rendered (run v es initial) \<noteq> []
        then [(nextId (run v es initial), tween_of v p d (rendered (run v es initial)))]
        else alive (run v es initial))"
proof -
  have "oneTween (run v es initial)"
    by (rule oneTween_run [OF oneTween_initial])
  then show ?thesis
    using oneTween_length [of "run v es initial"]
      oneTween_step2_alive [of "run v es initial" v p d]
    by (simp add: oneTween_def)
qed

text \<open>
  C7. The claim: after an unmount while an animation is active, the animation is
  cancelled and nothing keeps running on the removed element. On the demo page, in both
  versions, the tween is still running after the unmount and its playhead advances with
  the engine's clock; in the second version a pending debounce timer also survives the
  unmount (its callback is then dropped by React). Only the listeners are removed.
\<close>

theorem C7_unmount_leaves_tween:
  "alive (unmount (mount V1 demoProps demoDom)) =
      [(0, \<lparr>target = - 1000, dur = Some 20, paused = False, playhead = 0\<rparr>)]
   \<and> alive (tick 1 (unmount (mount V1 demoProps demoDom))) =
      [(0, \<lparr>target = - 1000, dur = Some 20, paused = False, playhead = 1\<rparr>)]
   \<and> alive (unmount (mount V2 demoProps demoDom)) =
      [(0, \<lparr>target = - 600, dur = Some 12, paused = False, playhead = 0\<rparr>)]
   \<and> alive (tick 1 (unmount (mount V2 demoProps demoDom))) =
      [(0, \<lparr>target = - 600, dur = Some 12, paused = False, playhead = 1\<rparr>)]
   \<and> timers (unmount (windowResize V2 (mount V2 demoProps demoDom))) = [(0, ClearCloned)]"
  by (simp add: evals Let_def)

text \<open>
  C8. With the hover listeners attached and a tween running, \<^verbatim>\<open>mouseenter\<close> pauses the
  tween where it is (same playhead, same offset), the offset does not change while time
  passes, and \<^verbatim>\<open>mouseleave\<close> resumes it from that offset. The listeners are attached by
  step 3 only, and only when \<^verbatim>\<open>pauseOnHover\<close> is true; they are removed when the option
  becomes false and at unmount, and without them the events do nothing.
\<close>

theorem C8_hover_pause_resume:
  "(hoverListeners s \<and> tweenRef s = Some i \<and> alive s = [(i, t)] \<longrightarrow>
      alive (dispatchEvent ''mouseenter'' s) = [(i, t\<lparr>paused := True\<rparr>)]
      \<and> offset (t\<lparr>paused := True\<rparr>) = offset t
      \<and> alive (tick dt (dispatchEvent ''mouseenter'' s)) = [(i, t\<lparr>paused := True\<rparr>)]
      \<and> alive (dispatchEvent ''mouseleave'' (tick dt (dispatchEvent ''mouseenter'' s))) =
          [(i, t\<lparr>paused := False\<rparr>)]
      \<and> offset (t\<lparr>paused := False\<rparr>) = offset t
      \<and> alive (tick dt' (dispatchEvent ''mouseleave'' (tick dt (dispatchEvent ''mouseenter'' s)))) =
          [(i, t\<lparr>paused := False, playhead := playhead t + dt'\<rparr>)])
   \<and> (hoverListeners (step3 p s) \<longleftrightarrow> pauseOnHover p \<and> mounted s)
   \<and> (hoverListeners (exec v e s) \<longrightarrow> hoverListeners s \<or> (\<exists>q. e = RunStep3 q \<and> pauseOnHover q))
   \<and> \<not> hoverListeners (step3 (p\<lparr>pauseOnHover := False\<rparr>) s)
   \<and> \<not> hoverListeners (unmount s)
   \<and> (\<not> hoverListeners s \<longrightarrow> dispatchEvent name s = s)"
proof -
  have a: "alive (dispatchEvent ''mouseenter'' s) = [(i, t\<lparr>paused := True\<rparr>)]"
    "alive (tick dt (dispatchEvent ''mouseenter'' s)) = [(i, t\<lparr>paused := True\<rparr>)]"
    "alive (dispatchEvent ''mouseleave'' (tick dt (dispatchEvent ''mouseenter'' s))) =
          [(i, t\<lparr>paused := False\<rparr>)]"
    "alive (tick dt' (dispatchEvent ''mouseleave'' (tick dt (dispatchEvent ''mouseenter'' s)))) =
          [(i, t\<lparr>paused := False, playhead := playhead t + dt'\<rparr>)]"
    if "hoverListeners s" "tweenRef s = Some i" "alive s = [(i, t)]"
    using that
    by (simp_all add: dispatchEvent_def handleMouseEnter_def handleMouseLeave_def pause_def
        resume_def tick_def)
  have b: "offset (t\<lparr>paused := True\<rparr>) = offset t" "offset (t\<lparr>paused := False\<rparr>) = offset t"
    by (simp_all add: offset_def split: option.splits)
  have c: "hoverListeners (step3 p s) \<longleftrightarrow> pauseOnHover p \<and> mounted s"
    "\<not> hoverListeners (step3 (p\<lparr>pauseOnHover := False\<rparr>) s)"
    "\<not> hoverListeners (unmount s)"
    by (simp_all add: step3_def step3_cleanup_def unmount_def step4_cleanup_def Let_def)
  have d: "\<not> hoverListeners s \<longrightarrow> dispatchEvent name s = s"
    by (simp add: dispatchEvent_def)
  show ?thesis
    using a b c d hover_only_step3 [of v e s] by blast
qed

text \<open>On the demo page (\<^verbatim>\<open>pauseOnHover\<close> is true): the tween is frozen during the three seconds
  of the hover and plays on from there; step 3 attached the listeners; after the unmount
  a \<^verbatim>\<open>mouseenter\<close> does nothing.\<close>

theorem C8_hover_pause_resume_witness:
  "alive (tick 3 (dispatchEvent ''mouseenter'' (mount V1 demoProps demoDom))) =
      [(0, (tween_v1 demoProps demoDom (items demoProps))\<lparr>paused := True\<rparr>)]
   \<and> alive (tick 1 (dispatchEvent ''mouseleave''
        (tick 3 (dispatchEvent ''mouseenter'' (mount V1 demoProps demoDom))))) =
      [(0, (tween_v1 demoProps demoDom (items demoProps))\<lparr>paused := False, playhead := 1\<rparr>)]
   \<and> hoverListeners (exec V1 (RunStep3 demoProps) initial) \<and> pauseOnHover demoProps
   \<and> dispatchEvent ''mouseenter'' (unmount (mount V1 demoProps demoDom)) =
        unmount (mount V1 demoProps demoDom)"
proof -
  have h: "hoverListeners (mount V1 demoProps demoDom)
     \<and> tweenRef (mount V1 demoProps demoDom) = Some 0
     \<and> alive (mount V1 demoProps demoDom) = [(0, tween_v1 demoProps demoDom (items demoProps))]"
    by (simp add: mount_demo_alive tween_of_def)
  have p: "playhead (tween_v1 demoProps demoDom (items demoProps)) + 1 = 1"
    by (simp add: tween_v1_def Let_def)
  have q: "hoverListeners (exec V1 (RunStep3 demoProps) (initial :: string scroller))"
    "\<not> hoverListeners (initial :: string scroller)"
    by (simp_all add: step3_def step3_cleanup_def initial_def demoProps_def)
  have 1: "alive (tick 3 (dispatchEvent ''mouseenter'' (mount V1 demoProps demoDom))) =
      [(0, (tween_v1 demoProps demoDom (items demoProps))\<lparr>paused := True\<rparr>)]
   \<and> alive (tick 1 (dispatchEvent ''mouseleave''
        (tick 3 (dispatchEvent ''mouseenter'' (mount V1 demoProps demoDom))))) =
      [(0, (tween_v1 demoProps demoDom (items demoProps))\<lparr>paused := False, playhead := 1\<rparr>)]"
    using C8_hover_pause_resume [of "mount V1 demoProps demoDom" 0
        "tween_v1 demoProps demoDom (items demoProps)" 3 1] h p
    by simp
  have 2: "pauseOnHover demoProps"
    using C8_hover_pause_resume [of initial _ _ _ _ _ V1 "RunStep3 demoProps"] q
    by blast
  have 3: "dispatchEvent ''mouseenter'' (unmount (mount V1 demoProps demoDom)) =
        unmount (mount V1 demoProps demoDom)"
    using C8_hover_pause_resume [of "unmount (mount V1 demoProps demoDom)"]
      C8_hover_pause_resume [of "mount V1 demoProps demoDom"]
    by blast
  show ?thesis
    using 1 2 3 q(1) by simp
qed

text \<open>
  C9. The claim: a resize clears the rendered list and then causes exactly one
  re-measurement, re-clone and re-animate cycle after the debounce settles. On the demo
  page, in both versions, once everything has settled after one resize event the
  rendered list is empty and stays so: step 1 never runs again. The first version clears
  the list at the first event and sets one timeout per event (no debounce); the second
  keeps one pending timer for a burst of events.
\<close>

theorem C9_resize_never_remeasures:
  "rendered (run V1 (resizeEvents V1 demoProps demoDom) (mount V1 demoProps demoDom)) = []
   \<and> clonedItems (run V1 (resizeEvents V1 demoProps demoDom) (mount V1 demoProps demoDom)) = []
   \<and> timers (run V1 (resizeEvents V1 demoProps demoDom) (mount V1 demoProps demoDom)) = []
   \<and> rendered (run V2 (resizeEvents V2 demoProps demoDom) (mount V2 demoProps demoDom)) = []
   \<and> clonedItems (run V2 (resizeEvents V2 demoProps demoDom) (mount V2 demoProps demoDom)) = []
   \<and> timers (run V2 (resizeEvents V2 demoProps demoDom) (mount V2 demoProps demoDom)) = []
   \<and> clonedItems (run V1 [WindowResize] (mount V1 demoProps demoDom)) = []
   \<and> timers (run V1 [WindowResize, WindowResize, WindowResize] (mount V1 demoProps demoDom)) =
        [(0, ResizeTrigger), (1, ResizeTrigger), (2, ResizeTrigger)]
   \<and> timers (run V2 [WindowResize, WindowResize, WindowResize] (mount V2 demoProps demoDom)) =
        [(2, ClearCloned)]"
  by (simp add: evals Let_def)

text \<open>
  C10. On the initial mount the measurement pass runs while the wrapper has no child
  (the state is still its initial empty list), so it commits \<open>items\<close> as it is, for every
  input; step 1 does not run again in the commit that follows, so the first committed
  list is the unrepeated \<open>items\<close>.
\<close>

theorem C10_first_commit_unrepeated:
  "rendered (initial :: 'a scroller) = []
   \<and> clonedItems (step1 p d (initial :: 'a scroller)) = items p
   \<and> rendered (mount v p d) = items p
   \<and> clonedItems (mount v p d) = items p"
  by (cases v) (simp_all add: mount_unfold)

end
